theory Spec2Isabelle
  imports Complex_Main "HOL-Library.Sublist" "HOL-Library.Log_Nat"
begin

section \<open>Python values used by \<open>mkv_player.py\<close>\<close>

text \<open>
  A Python \<open>str\<close> is modelled as a \<open>string\<close> whose characters stand for the code points
  U+0000 .. U+00FF.  The character classes below are the ones CPython uses for these code
  points.  Exceptions are values of the type \<open>error\<close>; a function that can raise returns
  \<open>error + 'a\<close> with \<open>Inl\<close> for the exception.
\<close>

datatype error = ValueError | OSError

subsection \<open>Character classes\<close>

definition isspace :: "char \<Rightarrow> bool" where
  \<comment> \<open>\<open>str.isspace\<close>, the characters removed by \<open>str.strip()\<close>\<close>
  "isspace c \<longleftrightarrow> c \<in> {CHR 0x09, CHR 0x0A, CHR 0x0B, CHR 0x0C, CHR 0x0D,
                      CHR 0x1C, CHR 0x1D, CHR 0x1E, CHR 0x1F, CHR 0x20, CHR 0x85, CHR 0xA0}"

definition is_linebreak :: "char \<Rightarrow> bool" where
  \<comment> \<open>the line boundaries of \<open>str.splitlines()\<close> other than carriage return\<close>
  "is_linebreak c \<longleftrightarrow> c \<in> {CHR 0x0A, CHR 0x0B, CHR 0x0C, CHR 0x1C, CHR 0x1D, CHR 0x1E, CHR 0x85}"

definition is_decimal :: "char \<Rightarrow> bool" where
  \<comment> \<open>the decimal digits accepted by \<open>int()\<close>: \<open>0\<close> .. \<open>9\<close>\<close>
  "is_decimal c \<longleftrightarrow> 48 \<le> (of_char c :: nat) \<and> (of_char c :: nat) \<le> 57"

definition is_digit_char :: "char \<Rightarrow> bool" where
  \<comment> \<open>the characters for which \<open>str.isdigit\<close> holds: the decimal digits and the
      superscripts U+00B2, U+00B3, U+00B9\<close>
  "is_digit_char c \<longleftrightarrow> is_decimal c \<or> c \<in> {CHR 0xB2, CHR 0xB3, CHR 0xB9}"

definition int_space :: "char \<Rightarrow> bool" where
  \<comment> \<open>the whitespace \<open>int()\<close> skips around a literal\<close>
  "int_space c \<longleftrightarrow> c \<in> {CHR 0x09, CHR 0x0A, CHR 0x0B, CHR 0x0C, CHR 0x0D, CHR 0x20,
                        CHR 0x85, CHR 0xA0}"

definition digit_val :: "char \<Rightarrow> nat" where
  "digit_val c = of_char c - 48"

subsection \<open>String methods\<close>

definition strip :: "string \<Rightarrow> string" where
  \<comment> \<open>\<open>s.strip()\<close>\<close>
  "strip s = rev (dropWhile isspace (rev (dropWhile isspace s)))"

definition rstrip_cr :: "string \<Rightarrow> string" where
  \<comment> \<open>\<open>s.rstrip('\r')\<close>\<close>
  "rstrip_cr s = rev (dropWhile (\<lambda>c. c = CHR 0x0D) (rev s))"

definition isdigit :: "string \<Rightarrow> bool" where
  \<comment> \<open>\<open>s.isdigit()\<close>: at least one character, and all of them digits\<close>
  "isdigit s \<longleftrightarrow> s \<noteq> [] \<and> list_all is_digit_char s"

fun contains :: "string \<Rightarrow> string \<Rightarrow> bool" where
  \<comment> \<open>\<open>sep in s\<close>\<close>
  "contains sep [] = (sep = [])"
| "contains sep (c # cs) = (prefix sep (c # cs) \<or> contains sep cs)"

fun split_aux :: "string \<Rightarrow> nat \<Rightarrow> string \<Rightarrow> string \<Rightarrow> string list" where
  \<comment> \<open>left-to-right scan for non-overlapping occurrences of \<open>sep\<close>; \<open>skip\<close> counts the
      characters of a matched separator still to be passed over, \<open>acc\<close> is the reversed piece\<close>
  "split_aux sep skip acc [] = [rev acc]"
| "split_aux sep (Suc k) acc (c # cs) = split_aux sep k acc cs"
| "split_aux sep 0 acc (c # cs) =
     (if prefix sep (c # cs) then rev acc # split_aux sep (length sep - 1) [] cs
      else split_aux sep 0 (c # acc) cs)"

definition split :: "string \<Rightarrow> string \<Rightarrow> string list" where
  \<comment> \<open>\<open>s.split(sep)\<close> for a non-empty separator\<close>
  "split s sep = split_aux sep 0 [] s"

fun splitlines_aux :: "string \<Rightarrow> string \<Rightarrow> string list" where
  "splitlines_aux acc [] = (if acc = [] then [] else [rev acc])"
| "splitlines_aux acc (c # cs) =
     (if c = CHR 0x0D then
        (case cs of
           [] \<Rightarrow> [rev acc]
         | d # ds \<Rightarrow> if d = CHR 0x0A then rev acc # splitlines_aux [] ds
                     else rev acc # splitlines_aux [] cs)
      else if is_linebreak c then rev acc # splitlines_aux [] cs
      else splitlines_aux (c # acc) cs)"

definition splitlines :: "string \<Rightarrow> string list" where
  \<comment> \<open>\<open>s.splitlines()\<close>\<close>
  "splitlines s = splitlines_aux [] s"

subsection \<open>\<open>int(s)\<close>\<close>

fun after_digit :: "nat \<Rightarrow> string \<Rightarrow> nat option" where
  \<comment> \<open>the rest of a decimal literal after a digit: digits, each optionally preceded by
      one underscore\<close>
  "after_digit acc [] = Some acc"
| "after_digit acc (c # cs) =
     (if is_decimal c then after_digit (10 * acc + digit_val c) cs
      else if c = CHR ''_'' then
        (case cs of
           [] \<Rightarrow> None
         | d # ds \<Rightarrow> if is_decimal d then after_digit (10 * acc + digit_val d) ds else None)
      else None)"

definition decimal :: "string \<Rightarrow> nat option" where
  "decimal s = (case s of [] \<Rightarrow> None
                | c # cs \<Rightarrow> if is_decimal c then after_digit (digit_val c) cs else None)"

definition int_strip :: "string \<Rightarrow> string" where
  "int_strip s = rev (dropWhile int_space (rev (dropWhile int_space s)))"

definition py_int :: "string \<Rightarrow> int option" where
  \<comment> \<open>\<open>int(s)\<close> in base 10: optional whitespace around an optional sign and a decimal literal;
      \<open>None\<close> is ValueError.  Python integers are unbounded.  (The interpreter's configurable
      cap on the length of a literal, \<open>sys.set_int_max_str_digits\<close>, is not part of the model.)\<close>
  "py_int s =
     (let t = int_strip s;
          body = (case t of [] \<Rightarrow> [] | c # cs \<Rightarrow> if c = CHR ''-'' \<or> c = CHR ''+'' then cs else t)
      in case decimal body of
           None \<Rightarrow> None
         | Some n \<Rightarrow> Some (if take 1 t = ''-'' then - int n else int n))"

subsection \<open>Floats\<close>

text \<open>
  A Python \<open>float\<close> is an IEEE 754 binary64 value: a finite value is kept as the rational it
  denotes (the two zeros, which compare equal, are one value).  \<open>round_double\<close> is rounding to
  nearest, ties to even, with 53 bits of precision, gradual underflow below \<open>2^-1022\<close> and
  overflow to infinity at \<open>2^1024\<close>.
\<close>

datatype pyfloat = Finite rat | PosInf | NegInf | NaN

definition pow2 :: "int \<Rightarrow> rat" where
  "pow2 e = (if 0 \<le> e then of_int (2 ^ nat e) else 1 / of_int (2 ^ nat (- e)))"

definition ilog2 :: "rat \<Rightarrow> int" where
  \<comment> \<open>\<open>\<lfloor>log\<^sub>2 \<bar>q\<bar>\<rfloor>\<close> for \<open>q \<noteq> 0\<close>\<close>
  "ilog2 q = (let (a, b) = quotient_of \<bar>q\<bar>; e = bitlen a - bitlen b
              in if pow2 e \<le> \<bar>q\<bar> then e else e - 1)"

definition round_half_even :: "rat \<Rightarrow> int" where
  "round_half_even q =
     (let f = \<lfloor>q\<rfloor>; r = q - of_int f
      in if r < 1 / 2 then f else if 1 / 2 < r then f + 1 else if even f then f else f + 1)"

definition round_double :: "rat \<Rightarrow> pyfloat" where
  "round_double q =
     (if q = 0 then Finite 0
      else let e = max (ilog2 q) (- 1022);
               u = pow2 (e - 52);
               r = of_int (round_half_even (q / u)) * u
           in if pow2 1024 \<le> \<bar>r\<bar> then (if 0 < q then PosInf else NegInf) else Finite r)"

definition float_of_int :: "int \<Rightarrow> rat option" where
  \<comment> \<open>the conversion of an \<open>int\<close> operand of a float operation; \<open>None\<close> is OverflowError\<close>
  "float_of_int n = (case round_double (of_int n) of Finite r \<Rightarrow> Some r | _ \<Rightarrow> None)"

fun float_add :: "pyfloat \<Rightarrow> pyfloat \<Rightarrow> pyfloat" where
  "float_add (Finite a) (Finite b) = round_double (a + b)"
| "float_add NaN _ = NaN"
| "float_add _ NaN = NaN"
| "float_add PosInf NegInf = NaN"
| "float_add NegInf PosInf = NaN"
| "float_add PosInf _ = PosInf"
| "float_add _ PosInf = PosInf"
| "float_add NegInf _ = NegInf"
| "float_add _ NegInf = NegInf"

fun float_neg :: "pyfloat \<Rightarrow> pyfloat" where
  "float_neg (Finite a) = Finite (- a)"
| "float_neg PosInf = NegInf"
| "float_neg NegInf = PosInf"
| "float_neg NaN = NaN"

definition float_sub :: "pyfloat \<Rightarrow> pyfloat \<Rightarrow> pyfloat" where
  "float_sub a b = float_add a (float_neg b)"

fun float_div_pos :: "pyfloat \<Rightarrow> rat \<Rightarrow> pyfloat" where
  \<comment> \<open>\<open>x / d\<close> for a finite divisor \<open>d > 0\<close>\<close>
  "float_div_pos (Finite a) d = round_double (a / d)"
| "float_div_pos x d = x"

fun fle :: "pyfloat \<Rightarrow> pyfloat \<Rightarrow> bool" where
  \<comment> \<open>\<open>a <= b\<close>\<close>
  "fle (Finite a) (Finite b) = (a \<le> b)"
| "fle NaN _ = False"
| "fle _ NaN = False"
| "fle NegInf _ = True"
| "fle _ PosInf = True"
| "fle _ _ = False"

fun flt :: "pyfloat \<Rightarrow> pyfloat \<Rightarrow> bool" where
  \<comment> \<open>\<open>a < b\<close>\<close>
  "flt (Finite a) (Finite b) = (a < b)"
| "flt NaN _ = False"
| "flt _ NaN = False"
| "flt PosInf _ = False"
| "flt _ NegInf = False"
| "flt _ _ = True"

section \<open>The subtitle parser\<close>

definition parse_timecode :: "string \<Rightarrow> error + pyfloat" where
  \<comment> \<open>every exception raised in the body is caught and replaced by ValueError\<close>
  "parse_timecode time_str =
     (case split time_str '','' of
        [hms, ms] \<Rightarrow>
          (case map py_int (split hms '':'') of
             [Some hours, Some minutes, Some seconds] \<Rightarrow>
               (case float_of_int (hours * 3600 + minutes * 60 + seconds) of
                  None \<Rightarrow> Inl ValueError
                | Some whole \<Rightarrow>
                    (case py_int ms of
                       None \<Rightarrow> Inl ValueError
                     | Some msi \<Rightarrow>
                         (case float_of_int msi of
                            None \<Rightarrow> Inl ValueError
                          | Some msf \<Rightarrow>
                              Inr (float_add (Finite whole)
                                     (float_div_pos (Finite msf) 1000)))))
           | _ \<Rightarrow> Inl ValueError)
      | _ \<Rightarrow> Inl ValueError)"

type_synonym cue = "pyfloat \<times> pyfloat \<times> string list"


function collect_lines :: "string list \<Rightarrow> nat \<Rightarrow> string list \<Rightarrow> nat \<times> string list" where
  \<comment> \<open>the loop collecting the text lines of a cue, up to a blank line or the end\<close>
  "collect_lines content idx lines =
     (if idx < length content \<and> strip (content ! idx) \<noteq> []
      then collect_lines content (idx + 1) (lines @ [rstrip_cr (content ! idx)])
      else (idx, lines))"
  by pat_completeness auto
termination
  by (relation "measure (\<lambda>(content, idx, lines). length content - idx)") auto

function skip_blank :: "string list \<Rightarrow> nat \<Rightarrow> nat" where
  \<comment> \<open>the loop passing over the blank lines after a cue\<close>
  "skip_blank content idx =
     (if idx < length content \<and> strip (content ! idx) = []
      then skip_blank content (idx + 1)
      else idx)"
  by pat_completeness auto
termination
  by (relation "measure (\<lambda>(content, idx). length content - idx)") auto

declare collect_lines.simps [simp del] skip_blank.simps [simp del]

lemma collect_lines_ge: "idx \<le> fst (collect_lines content idx lines)"
proof (induction content idx lines rule: collect_lines.induct)
  case (1 content idx lines)
  show ?case
  proof (cases "idx < length content \<and> strip (content ! idx) \<noteq> []")
    case True
    with "1" have "idx + 1 \<le> fst (collect_lines content idx lines)"
      by (subst collect_lines.simps) simp
    then show ?thesis by simp
  next
    case False
    then show ?thesis by (subst collect_lines.simps) auto
  qed
qed

lemma skip_blank_ge: "idx \<le> skip_blank content idx"
proof (induction content idx rule: skip_blank.induct)
  case (1 content idx)
  show ?case
  proof (cases "idx < length content \<and> strip (content ! idx) = []")
    case True
    with "1" have "idx + 1 \<le> skip_blank content idx"
      by (subst skip_blank.simps) simp
    then show ?thesis by simp
  next
    case False
    then show ?thesis by (subst skip_blank.simps) auto
  qed
qed

function parse_loop :: "string list \<Rightarrow> nat \<Rightarrow> cue list \<Rightarrow> error + cue list" where
  \<comment> \<open>the main loop of \<open>parse_srt\<close>, from the state \<open>idx\<close>, \<open>cues\<close>\<close>
  "parse_loop content idx cues =
     (if \<not> idx < length content then Inr cues
      else if strip (content ! idx) = [] then parse_loop content (idx + 1) cues
      else
        let idx1 = (if isdigit (strip (content ! idx)) then idx + 1 else idx) in
        if length content \<le> idx1 then Inr cues
        else
          let timing = strip (content ! idx1); idx2 = idx1 + 1 in
          if \<not> contains ''-->'' timing then parse_loop content idx2 cues
          else
            (case map strip (split timing ''-->'') of
               [start_str, end_str] \<Rightarrow>
                 (case parse_timecode start_str of
                    Inl e \<Rightarrow> parse_loop content idx2 cues
                  | Inr start_time \<Rightarrow>
                      (case parse_timecode end_str of
                         Inl e \<Rightarrow> parse_loop content idx2 cues
                       | Inr end_time \<Rightarrow>
                           (case collect_lines content idx2 [] of
                              (idx3, lines) \<Rightarrow>
                                parse_loop content (skip_blank content idx3)
                                  (cues @ [(start_time, end_time, lines)]))))
             | _ \<Rightarrow> Inl ValueError))"
  by pat_completeness auto
termination
proof (relation "measure (\<lambda>(content, idx, cues). length content - idx)", goal_cases)
  case (6 content idx cues idx1 timing idx2 start_str rest end_str rest' start_time end_time idx3 lines)
  have "idx2 \<le> fst (collect_lines content idx2 [])" by (rule collect_lines_ge)
  with 6 have "idx2 \<le> idx3" by (metis fst_conv)
  moreover have "idx3 \<le> skip_blank content idx3" by (rule skip_blank_ge)
  ultimately show ?case using 6 by (auto split: if_splits)
qed (auto split: if_splits)

declare parse_loop.simps [simp del]

datatype path_state = Missing | Unreadable | Text string

definition parse_srt ::
  "(string \<Rightarrow> path_state) \<Rightarrow> string \<Rightarrow> string list \<times> (error + cue list)" where
  \<comment> \<open>\<open>fs path\<close> is what the file system holds at \<open>path\<close>: nothing, something \<open>open\<close> fails on,
      or a file whose decoded text \<open>f.read()\<close> returns.  The result is the lines printed and
      the value returned or the exception raised.\<close>
  "parse_srt fs path =
     (case fs path of
        Missing \<Rightarrow>
          ([''Subtitle file '' @ [CHR 0x27] @ path @ [CHR 0x27] @
              '' does not exist. Continuing without subtitles.''], Inr [])
      | Unreadable \<Rightarrow> ([], Inl OSError)
      | Text s \<Rightarrow> ([], parse_loop (splitlines s) 0 []))"

fun find_active_cue :: "cue list \<Rightarrow> pyfloat \<Rightarrow> string list option" where
  "find_active_cue [] current_time = None"
| "find_active_cue ((start_time, end_time, lines) # cues) current_time =
     (if fle start_time current_time \<and> fle current_time end_time then Some lines
      else find_active_cue cues current_time)"

section \<open>The cue renderer\<close>

text \<open>
  A frame is a numpy array: its shape and element type, which no operation in place can
  change, and its pixel data, indexed by row, column and channel.  Arrays are objects with an
  identity: the \<open>heap\<close> of a \<open>machine\<close> holds them, a reference is an index into it, and
  \<open>frame.copy()\<close> allocates a new one.  The \<open>trace\<close> records, in order, the calls that draw,
  show or save a frame, and what is printed.

  The functions of the \<open>cv2\<close> module are parameters of the model.  A function of the library
  that draws into an array it is given is represented by the function that computes the new
  pixel data of that array; \<open>write_pixels\<close> stores it into the array and records the call.
\<close>

type_synonym pixels = "nat \<Rightarrow> nat \<Rightarrow> nat \<Rightarrow> rat"

record ndarray =
  rows :: nat
  cols :: nat
  channels :: nat
  dtype :: string
  px :: pixels

type_synonym point = "int \<times> int"

type_synonym scalar = "int \<times> int \<times> int"

datatype event =
    Decoded ndarray
  | Rectangle nat point point scalar int
  | AddWeighted nat pyfloat nat pyfloat pyfloat nat
  | PutText nat string point int pyfloat scalar int int
  | Imshow string ndarray
  | Imwrite string ndarray
  | Print string

record cv2 =
  getTextSize :: "string \<Rightarrow> int \<Rightarrow> pyfloat \<Rightarrow> int \<Rightarrow> (int \<times> int) \<times> int"
  rectangle :: "ndarray \<Rightarrow> point \<Rightarrow> point \<Rightarrow> scalar \<Rightarrow> int \<Rightarrow> pixels"
  addWeighted :: "ndarray \<Rightarrow> pyfloat \<Rightarrow> ndarray \<Rightarrow> pyfloat \<Rightarrow> pyfloat \<Rightarrow> ndarray \<Rightarrow> pixels"
  putText :: "ndarray \<Rightarrow> string \<Rightarrow> point \<Rightarrow> int \<Rightarrow> pyfloat \<Rightarrow> scalar \<Rightarrow> int \<Rightarrow> int \<Rightarrow> pixels"

record machine =
  heap :: "ndarray list"
  trace :: "event list"

definition copy :: "machine \<Rightarrow> nat \<Rightarrow> machine \<times> nat" where
  \<comment> \<open>\<open>a.copy()\<close>: a new array with the contents of \<open>a\<close>\<close>
  "copy m a = (m\<lparr>heap := heap m @ [heap m ! a]\<rparr>, length (heap m))"

definition write_pixels :: "machine \<Rightarrow> nat \<Rightarrow> pixels \<Rightarrow> event \<Rightarrow> machine" where
  \<comment> \<open>a library call that overwrites the pixel data of the array \<open>a\<close>\<close>
  "write_pixels m a d ev =
     m\<lparr>heap := (heap m)[a := (heap m ! a)\<lparr>px := d\<rparr>], trace := trace m @ [ev]\<rparr>"

definition FONT_HERSHEY_SIMPLEX :: int where
  "FONT_HERSHEY_SIMPLEX = 0"

definition LINE_AA :: int where
  "LINE_AA = 16"

definition font_scale :: pyfloat where
  \<comment> \<open>the literal \<open>0.6\<close>\<close>
  "font_scale = round_double (6 / 10)"

definition thickness :: int where
  "thickness = 2"

definition line_spacing :: int where
  "line_spacing = 10"

definition margin_bottom :: int where
  "margin_bottom = 20"

definition alpha :: pyfloat where
  "alpha = Finite (1 / 2)"

fun py_max :: "int \<Rightarrow> int list \<Rightarrow> int" where
  \<comment> \<open>\<open>max\<close> of a non-empty sequence, given as its first element and the rest\<close>
  "py_max m [] = m"
| "py_max m (x # xs) = py_max (if m < x then x else m) xs"

fun draw_lines ::
  "cv2 \<Rightarrow> machine \<Rightarrow> nat \<Rightarrow> int \<Rightarrow> int \<Rightarrow> (string \<times> int \<times> int) list \<Rightarrow> machine" where
  \<comment> \<open>the loop over \<open>zip(lines, text_sizes)\<close>, from the state \<open>y\<close>\<close>
  "draw_lines cv m result w y [] = m"
| "draw_lines cv m result w y ((line, line_width, line_height) # rest) =
     (let x = (w - line_width) div 2;
          m' = write_pixels m result
                 (putText cv (heap m ! result) line (x, y + line_height) FONT_HERSHEY_SIMPLEX
                    font_scale (255, 255, 255) thickness LINE_AA)
                 (PutText result line (x, y + line_height) FONT_HERSHEY_SIMPLEX
                    font_scale (255, 255, 255) thickness LINE_AA)
      in draw_lines cv m' result w (y + line_height + line_spacing) rest)"

definition draw_backing ::
  "cv2 \<Rightarrow> machine \<Rightarrow> nat \<Rightarrow> string list \<Rightarrow> machine \<times> int \<times> (int \<times> int) list" where
  \<comment> \<open>lines 153 to 178 of \<open>overlay_subtitle\<close>, for a non-empty list \<open>lines\<close>: the layout of the
      text block and the translucent rectangle behind it, drawn into \<open>result\<close>.  The values
      the rest of the function uses are returned: the machine, \<open>y_start\<close> and \<open>text_sizes\<close>.\<close>
  "draw_backing cv m1 result lines =
     (let h = int (rows (heap m1 ! result));
          w = int (cols (heap m1 ! result));
          text_sizes =
            map (\<lambda>l. fst (getTextSize cv l FONT_HERSHEY_SIMPLEX font_scale thickness)) lines;
          max_width = py_max (fst (hd text_sizes)) (map fst (tl text_sizes));
          total_text_height =
            sum_list (map snd text_sizes) + (int (length lines) - 1) * line_spacing;
          y_start = h - margin_bottom - total_text_height;
          x_start = (w - max_width) div 2;
          rect_x1 = x_start - 10;
          rect_y1 = y_start - 5;
          rect_x2 = x_start + max_width + 10;
          rect_y2 = y_start + total_text_height + 5;
          (m2, overlay) = copy m1 result;
          m3 = write_pixels m2 overlay
                 (rectangle cv (heap m2 ! overlay) (rect_x1, rect_y1) (rect_x2, rect_y2)
                    (0, 0, 0) (- 1))
                 (Rectangle overlay (rect_x1, rect_y1) (rect_x2, rect_y2) (0, 0, 0) (- 1));
          beta = float_sub (Finite 1) alpha;
          m4 = write_pixels m3 result
                 (addWeighted cv (heap m3 ! overlay) alpha (heap m3 ! result) beta (Finite 0)
                    (heap m3 ! result))
                 (AddWeighted overlay alpha result beta (Finite 0) result)
      in (m4, y_start, text_sizes))"

definition overlay_subtitle :: "cv2 \<Rightarrow> machine \<Rightarrow> nat \<Rightarrow> string list \<Rightarrow> machine \<times> nat" where
  \<comment> \<open>the result is the machine after the call and the reference returned\<close>
  "overlay_subtitle cv m frame lines =
     (let (m1, result) = copy m frame;
          w = int (cols (heap m1 ! result))
      in if lines = [] then (m1, result)
         else
           let (m4, y_start, text_sizes) = draw_backing cv m1 result lines
           in (draw_lines cv m4 result w y_start (zip lines text_sizes), result))"

section \<open>The playback loop\<close>

text \<open>
  The loop of \<open>main\<close> (lines 242 to 277).  The capture is the list of the frames it has not
  decoded yet; \<open>cap.read()\<close> allocates a new array for each.  What an iteration gets from
  outside is a \<open>tick\<close>: the position \<open>cap.get(CAP_PROP_POS_MSEC)\<close>, the value of
  \<open>cv2.waitKey(delay)\<close> and the text of \<open>datetime.now().strftime(...)\<close>.  A run is given by a
  finite list of ticks; it ends earlier when the loop is left.
\<close>

record tick =
  pos_msec :: pyfloat
  key_code :: int
  timestamp :: string

record player =
  machine :: machine
  video :: "ndarray list"
  paused :: bool
  current_frame :: "nat option"
  running :: bool

definition emit :: "event \<Rightarrow> machine \<Rightarrow> machine" where
  "emit ev m = m\<lparr>trace := trace m @ [ev]\<rparr>"

definition window_name :: string where
  "window_name = ''MKV Player''"

definition read_frame :: "player \<Rightarrow> player" where
  \<comment> \<open>lines 243 to 248\<close>
  "read_frame p =
     (if paused p then p
      else case video p of
             [] \<Rightarrow> p\<lparr>machine := emit (Print ''End of video.'') (machine p), running := False\<rparr>
           | frame # rest \<Rightarrow>
               p\<lparr>machine := emit (Decoded frame)
                                ((machine p)\<lparr>heap := heap (machine p) @ [frame]\<rparr>),
                  video := rest,
                  current_frame := Some (length (heap (machine p)))\<rparr>)"

definition show_frame :: "cv2 \<Rightarrow> cue list \<Rightarrow> pyfloat \<Rightarrow> machine \<Rightarrow> nat \<Rightarrow> machine" where
  \<comment> \<open>lines 252 to 261\<close>
  "show_frame cv cues pos m cur =
     (let (m1, display_frame) = copy m cur;
          current_time = float_div_pos pos 1000;
          (m2, display_frame) =
            (if cues \<noteq> [] then
               (case find_active_cue cues current_time of
                  None \<Rightarrow> (m1, display_frame)
                | Some subtitle_lines \<Rightarrow>
                    if subtitle_lines \<noteq> [] then overlay_subtitle cv m1 display_frame subtitle_lines
                    else (m1, display_frame))
             else (m1, display_frame))
      in emit (Imshow window_name (heap m2 ! display_frame)) m2)"

definition handle_key ::
  "(string \<Rightarrow> string \<Rightarrow> string) \<Rightarrow> string \<Rightarrow> tick \<Rightarrow> nat \<Rightarrow> player \<Rightarrow> player" where
  \<comment> \<open>lines 263 to 277; \<open>join\<close> is \<open>os.path.join\<close>\<close>
  "handle_key join output_dir t cur p =
     (let key = key_code t mod 256 in
      if key = 113 \<or> key = 27 then
        p\<lparr>machine := emit (Print ''Quitting...'') (machine p), running := False\<rparr>
      else if key = 32 then p\<lparr>paused := \<not> paused p\<rparr>
      else if key = 115 then
        (let filename = ''screenshot_'' @ take (length (timestamp t) - 3) (timestamp t) @ ''.png'';
             filepath = join output_dir filename
         in p\<lparr>machine := emit (Print (''Saved screenshot to '' @ filepath))
                              (emit (Imwrite filepath (heap (machine p) ! cur)) (machine p))\<rparr>)
      else p)"

definition loop_body ::
  "cv2 \<Rightarrow> (string \<Rightarrow> string \<Rightarrow> string) \<Rightarrow> cue list \<Rightarrow> string \<Rightarrow> tick \<Rightarrow> player \<Rightarrow> player" where
  "loop_body cv join cues output_dir t p =
     (let p1 = read_frame p in
      if \<not> running p1 then p1
      else case current_frame p1 of
             None \<Rightarrow> p1\<lparr>running := False\<rparr>
           | Some cur \<Rightarrow>
               handle_key join output_dir t cur
                 (p1\<lparr>machine := show_frame cv cues (pos_msec t) (machine p1) cur\<rparr>))"

fun main_loop ::
  "cv2 \<Rightarrow> (string \<Rightarrow> string \<Rightarrow> string) \<Rightarrow> cue list \<Rightarrow> string \<Rightarrow> tick list \<Rightarrow> player \<Rightarrow> player" where
  "main_loop cv join cues output_dir [] p = p"
| "main_loop cv join cues output_dir (t # ts) p =
     (let p' = loop_body cv join cues output_dir t p
      in if running p' then main_loop cv join cues output_dir ts p' else p')"

definition start :: "ndarray list \<Rightarrow> player" where
  \<comment> \<open>the state in which the loop is entered (lines 235 and 236), for a capture holding
      the frames \<open>frames\<close>\<close>
  "start frames =
     \<lparr>machine = \<lparr>heap = [], trace = []\<rparr>, video = frames, paused = False,
      current_frame = None, running = True\<rparr>"

subsection \<open>What the library is assumed to do\<close>

text \<open>
  The statements about pixel values hold for every library that does what the OpenCV
  documentation says: a filled rectangle sets the pixels between its two corners, both
  included, to the colour and leaves the others; \<open>addWeighted\<close> stores, in every element, the
  weighted sum converted to the element type of the destination by \<open>sat\<close>; \<open>putText\<close>
  changes no pixel outside the footprint \<open>fp\<close> of the text.
\<close>

type_synonym footprint = "string \<Rightarrow> point \<Rightarrow> int \<Rightarrow> pyfloat \<Rightarrow> int \<Rightarrow> point set"

definition in_box :: "point \<Rightarrow> point \<Rightarrow> point \<Rightarrow> bool" where
  "in_box p1 p2 p \<longleftrightarrow>
     min (fst p1) (fst p2) \<le> fst p \<and> fst p \<le> max (fst p1) (fst p2) \<and>
     min (snd p1) (snd p2) \<le> snd p \<and> snd p \<le> max (snd p1) (snd p2)"

definition scalar_channel :: "scalar \<Rightarrow> nat \<Rightarrow> rat" where
  "scalar_channel s c =
     (case s of (v0, v1, v2) \<Rightarrow>
        of_int (if c = 0 then v0 else if c = 1 then v1 else if c = 2 then v2 else 0))"

definition rectangle_fills :: "cv2 \<Rightarrow> bool" where
  "rectangle_fills cv \<longleftrightarrow>
     (\<forall>img p1 p2 col t y x c. t < 0 \<longrightarrow>
        rectangle cv img p1 p2 col t y x c =
          (if in_box p1 p2 (int x, int y) then scalar_channel col c else px img y x c))"

definition addWeighted_blends :: "cv2 \<Rightarrow> (string \<Rightarrow> rat \<Rightarrow> rat) \<Rightarrow> bool" where
  "addWeighted_blends cv sat \<longleftrightarrow>
     (\<forall>src1 a src2 b g dst y x c.
        addWeighted cv src1 (Finite a) src2 (Finite b) (Finite g) dst y x c =
          sat (dtype dst) (a * px src1 y x c + b * px src2 y x c + g))"

definition putText_within :: "cv2 \<Rightarrow> footprint \<Rightarrow> bool" where
  "putText_within cv fp \<longleftrightarrow>
     (\<forall>img text org font scale col th lt y x c.
        (int x, int y) \<notin> fp text org font scale th \<longrightarrow>
        putText cv img text org font scale col th lt y x c = px img y x c)"

definition holds_values :: "(string \<Rightarrow> rat \<Rightarrow> rat) \<Rightarrow> ndarray \<Rightarrow> bool" where
  \<comment> \<open>every element of the array is a value of its element type\<close>
  "holds_values sat a \<longleftrightarrow> (\<forall>y x c. sat (dtype a) (px a y x c) = px a y x c)"

fun event_region :: "footprint \<Rightarrow> event \<Rightarrow> point set" where
  \<comment> \<open>the pixels a drawing call can touch\<close>
  "event_region fp (Rectangle a p1 p2 col t) = {p. in_box p1 p2 p}"
| "event_region fp (PutText a text org font scale col th lt) = fp text org font scale th"
| "event_region fp ev = {}"

definition drawn_region :: "footprint \<Rightarrow> event list \<Rightarrow> point set" where
  "drawn_region fp evs = (\<Union>ev\<in>set evs. event_region fp ev)"

fun latest_decoded :: "ndarray option \<Rightarrow> event list \<Rightarrow> ndarray option" where
  \<comment> \<open>the frame decoded last in a trace, \<open>acc\<close> when there is none\<close>
  "latest_decoded acc [] = acc"
| "latest_decoded acc (Decoded f # evs) = latest_decoded (Some f) evs"
| "latest_decoded acc (ev # evs) = latest_decoded acc evs"

fun put_events :: "nat \<Rightarrow> int \<Rightarrow> int \<Rightarrow> (string \<times> int \<times> int) list \<Rightarrow> event list" where
  \<comment> \<open>the calls \<open>draw_lines\<close> records\<close>
  "put_events r w y [] = []"
| "put_events r w y ((line, lw, lh) # rest) =
     PutText r line ((w - lw) div 2, y + lh) FONT_HERSHEY_SIMPLEX font_scale (255, 255, 255)
       thickness LINE_AA
     # put_events r w (y + lh + line_spacing) rest"

subsection \<open>A library to try the statements on\<close>

text \<open>
  \<open>plain_cv\<close> is a small library that meets the assumptions above: every text is ten pixels
  wide per character and twelve high, images hold exact values, and \<open>putText\<close> marks the
  origin of the text only.
\<close>

definition plain_cv :: cv2 where
  "plain_cv =
     \<lparr>getTextSize = (\<lambda>text font scale th. ((10 * int (length text), 12), 4)),
      rectangle = (\<lambda>img p1 p2 col t y x c.
         if in_box p1 p2 (int x, int y) then scalar_channel col c else px img y x c),
      addWeighted = (\<lambda>src1 a src2 b g dst y x c.
         case (a, b, g) of
           (Finite a', Finite b', Finite g') \<Rightarrow> a' * px src1 y x c + b' * px src2 y x c + g'
         | _ \<Rightarrow> 0),
      putText = (\<lambda>img text org font scale col th lt y x c.
         if (int x, int y) = org then scalar_channel col c else px img y x c)\<rparr>"

definition plain_sat :: "string \<Rightarrow> rat \<Rightarrow> rat" where
  "plain_sat d v = v"

definition plain_fp :: footprint where
  "plain_fp text org font scale th = {org}"

definition grey_frame :: ndarray where
  "grey_frame = \<lparr>rows = 100, cols = 200, channels = 3, dtype = ''float32'', px = (\<lambda>y x c. 100)\<rparr>"

subsection \<open>Traces of a run\<close>

fun drawing :: "event \<Rightarrow> bool" where
  \<comment> \<open>the calls that draw into an array\<close>
  "drawing (Rectangle a p1 p2 col t) = True"
| "drawing (AddWeighted a x b y g d) = True"
| "drawing (PutText a text org font scale col th lt) = True"
| "drawing ev = False"

definition raw_screenshots :: "event list \<Rightarrow> bool" where
  \<comment> \<open>every frame saved is the frame decoded last before the call\<close>
  "raw_screenshots tr \<longleftrightarrow>
     (\<forall>i<length tr. \<forall>path d. tr ! i = Imwrite path d \<longrightarrow>
        latest_decoded None (take i tr) = Some d)"

definition player_ok :: "player \<Rightarrow> bool" where
  \<comment> \<open>the invariant of the loop: \<open>current_frame\<close> names the frame decoded last, unchanged\<close>
  "player_ok p \<longleftrightarrow>
     raw_screenshots (trace (machine p)) \<and>
     (\<forall>cur. current_frame p = Some cur \<longrightarrow>
        cur < length (heap (machine p)) \<and>
        latest_decoded None (trace (machine p)) = Some (heap (machine p) ! cur))"

definition slash_join :: "string \<Rightarrow> string \<Rightarrow> string" where
  \<comment> \<open>\<open>os.path.join\<close> of a directory without a trailing separator and a relative name, on POSIX\<close>
  "slash_join a b = a @ ''/'' @ b"

definition interval_contains :: "cue \<Rightarrow> pyfloat \<Rightarrow> bool" where
  \<comment> \<open>the closed interval \<open>[start_time, end_time]\<close> of a cue contains \<open>t\<close>\<close>
  "interval_contains c t \<longleftrightarrow> fle (fst c) t \<and> fle t (fst (snd c))"



section \<open>Properties of the subtitle parser and of cue lookup\<close>

subsection \<open>Cue lookup\<close>

lemma find_active_cue_None_iff:
  "find_active_cue cues t = None \<longleftrightarrow> (\<forall>c\<in>set cues. \<not> interval_contains c t)"
  by (induction cues t rule: find_active_cue.induct) (auto simp: interval_contains_def)

lemma find_active_cue_first:
  "i < length cues \<Longrightarrow> interval_contains (cues ! i) t \<Longrightarrow>
   (\<forall>j<i. \<not> interval_contains (cues ! j) t) \<Longrightarrow>
   find_active_cue cues t = Some (snd (snd (cues ! i)))"
proof (induction cues t arbitrary: i rule: find_active_cue.induct)
  case (1 t)
  then show ?case by simp
next
  case (2 s e ls cues t)
  show ?case
  proof (cases i)
    case 0
    with 2 show ?thesis by (simp add: interval_contains_def)
  next
    case (Suc k)
    with 2(3,4) have out: "\<not> interval_contains (s, e, ls) t" by auto
    moreover have "find_active_cue cues t = Some (snd (snd (cues ! k)))"
    proof (rule 2(1))
      show "\<not> (fle s t \<and> fle t e)" using out by (simp add: interval_contains_def)
      show "k < length cues" using 2(2) Suc by simp
      show "interval_contains (cues ! k) t" using 2(3) Suc by simp
      show "\<forall>j<k. \<not> interval_contains (cues ! j) t" using 2(4) Suc by auto
    qed
    ultimately show ?thesis using Suc by (auto simp add: interval_contains_def)
  qed
qed

lemma fle_endpoints: "fle s e \<Longrightarrow> fle s s \<and> fle e e"
  by (cases s; cases e) auto

lemma flt_empty_interval: "flt e s \<Longrightarrow> \<not> (fle s t \<and> fle t e)"
  by (cases s; cases e; cases t) auto

lemma find_active_cue_skip:
  "\<not> (fle s t \<and> fle t e) \<Longrightarrow>
   find_active_cue (pre @ (s, e, ls) # post) t = find_active_cue (pre @ post) t"
  by (induction pre) auto

text \<open>
  C2.  For every cue list and every time \<open>t\<close>, \<open>find_active_cue\<close> returns the lines of the first
  cue, in list order, whose closed interval \<open>[start_time, end_time]\<close> contains \<open>t\<close>, and \<open>None\<close>
  exactly when no interval contains \<open>t\<close>.  Both endpoints belong to the interval.  With the
  overlapping cues A = [0, 5] and B = [2, 8] in this order, the lookup at 3 gives the lines of A.
\<close>

theorem find_active_cue_first_match:
  "(\<forall>i. i < length cues \<and> interval_contains (cues ! i) t \<and>
        (\<forall>j<i. \<not> interval_contains (cues ! j) t)
        \<longrightarrow> find_active_cue cues t = Some (snd (snd (cues ! i)))) \<and>
   (find_active_cue cues t = None \<longleftrightarrow> (\<forall>c\<in>set cues. \<not> interval_contains c t)) \<and>
   (fle s e \<longrightarrow> find_active_cue ((s, e, ls) # rest) s = Some ls \<and>
                find_active_cue ((s, e, ls) # rest) e = Some ls) \<and>
   find_active_cue [(Finite 0, Finite 5, linesA), (Finite 2, Finite 8, linesB)] (Finite 3)
     = Some linesA"
proof (intro conjI allI impI)
  fix i
  assume "i < length cues \<and> interval_contains (cues ! i) t \<and>
          (\<forall>j<i. \<not> interval_contains (cues ! j) t)"
  then show "find_active_cue cues t = Some (snd (snd (cues ! i)))"
    by (simp add: find_active_cue_first)
next
  show "find_active_cue cues t = None \<longleftrightarrow> (\<forall>c\<in>set cues. \<not> interval_contains c t)"
    by (rule find_active_cue_None_iff)
next
  assume "fle s e"
  then show "find_active_cue ((s, e, ls) # rest) s = Some ls"
    using fle_endpoints [of s e] by simp
next
  assume "fle s e"
  then show "find_active_cue ((s, e, ls) # rest) e = Some ls"
    using fle_endpoints [of s e] by simp
next
  show "find_active_cue [(Finite 0, Finite 5, linesA), (Finite 2, Finite 8, linesB)] (Finite 3)
          = Some linesA"
    by simp
qed

theorem find_active_cue_first_match_witness:
  "find_active_cue [(Finite 0, Finite 1, [''one'']), (Finite 2, Finite 8, [''two'']),
                    (Finite 3, Finite 4, [''three''])] (Finite 3) = Some [''two''] \<and>
   find_active_cue [(Finite 2, Finite 8, [''two''])] (Finite 2) = Some [''two''] \<and>
   find_active_cue [(Finite 2, Finite 8, [''two''])] (Finite 8) = Some [''two'']"
proof -
  let ?cues = "[(Finite 0, Finite 1, [''one'']), (Finite 2, Finite 8, [''two'']),
                (Finite 3, Finite 4, [''three''])]"
  have h: "1 < length ?cues \<and> interval_contains (?cues ! 1) (Finite 3) \<and>
           (\<forall>j<1. \<not> interval_contains (?cues ! j) (Finite 3))"
    by (simp add: interval_contains_def)
  have e: "fle (Finite 2) (Finite 8)" by simp
  from find_active_cue_first_match [of ?cues "Finite 3" "Finite 2" "Finite 8" "[''two'']" "[]"] h e
  show ?thesis by simp
qed

text \<open>
  C9.  A cue whose start time is strictly greater than its end time contains no time \<open>t\<close>, and
  its presence anywhere in the cue list changes no lookup.  The parser does not validate the
  order of the two times: a block with start 5 s and end 1 s is emitted as a cue.
\<close>

theorem degenerate_cue_never_matches:
  "(flt e s \<longrightarrow>
      \<not> interval_contains (s, e, ls) t \<and>
      find_active_cue (pre @ (s, e, ls) # post) t = find_active_cue (pre @ post) t) \<and>
   parse_srt (fs(path := Text ''00:00:05,000 --> 00:00:01,000\<newline>Backwards\<newline>'')) path
     = ([], Inr [(Finite 5, Finite 1, [''Backwards''])])"
proof (intro conjI impI)
  assume d: "flt e s"
  show "\<not> interval_contains (s, e, ls) t"
    using flt_empty_interval [OF d, of t] by (simp add: interval_contains_def)
  show "find_active_cue (pre @ (s, e, ls) # post) t = find_active_cue (pre @ post) t"
    using flt_empty_interval [OF d, of t] by (rule find_active_cue_skip)
next
  have "parse_srt (\<lambda>p. Text ''00:00:05,000 --> 00:00:01,000\<newline>Backwards\<newline>'') []
          = ([], Inr [(Finite 5, Finite 1, [''Backwards''])])"
    by code_simp
  then show "parse_srt (fs(path := Text ''00:00:05,000 --> 00:00:01,000\<newline>Backwards\<newline>'')) path
          = ([], Inr [(Finite 5, Finite 1, [''Backwards''])])"
    by (simp add: parse_srt_def)
qed

theorem degenerate_cue_never_matches_witness:
  "flt (Finite 1) (Finite 5) \<and>
   find_active_cue [(Finite 5, Finite 1, [''Backwards'']), (Finite 0, Finite 10, [''x''])] (Finite 3)
     = Some [''x'']"
proof -
  have d: "flt (Finite 1) (Finite 5)" by simp
  from degenerate_cue_never_matches
         [of "Finite 1" "Finite 5" "[''Backwards'']" "Finite 3" "[]" "[(Finite 0, Finite 10, [''x''])]"] d
  have "find_active_cue ([] @ (Finite 5, Finite 1, [''Backwards'']) # [(Finite 0, Finite 10, [''x''])])
          (Finite 3) = find_active_cue ([] @ [(Finite 0, Finite 10, [''x''])]) (Finite 3)"
    by blast
  with d show ?thesis by simp
qed

subsection \<open>The parser\<close>

text \<open>
  C1.  The text of a known-good block, the timing line \<open>00:00:01,500 --> 00:00:03,000\<close>, the text
  lines \<open>Hello\<close> and \<open>World\<close> and a blank line, is parsed into exactly one cue with start 1.5,
  end 3.0 and the lines \<open>[Hello, World]\<close>; each timecode is
  \<open>hours * 3600 + minutes * 60 + seconds + milliseconds / 1000\<close>.
\<close>

theorem parse_srt_known_good_block:
  "parse_srt (fs(path := Text ''00:00:01,500 --> 00:00:03,000\<newline>Hello\<newline>World\<newline>\<newline>'')) path
     = ([], Inr [(Finite (3 / 2), Finite 3, [''Hello'', ''World''])]) \<and>
   parse_timecode ''00:00:01,500'' = Inr (Finite (0 * 3600 + 0 * 60 + 1 + 500 / 1000)) \<and>
   parse_timecode ''00:00:03,000'' = Inr (Finite (0 * 3600 + 0 * 60 + 3 + 0 / 1000))"
proof (intro conjI)
  have "parse_srt (\<lambda>p. Text ''00:00:01,500 --> 00:00:03,000\<newline>Hello\<newline>World\<newline>\<newline>'') []
          = ([], Inr [(Finite (3 / 2), Finite 3, [''Hello'', ''World''])])"
    by code_simp
  then show "parse_srt (fs(path := Text ''00:00:01,500 --> 00:00:03,000\<newline>Hello\<newline>World\<newline>\<newline>'')) path
          = ([], Inr [(Finite (3 / 2), Finite 3, [''Hello'', ''World''])])"
    by (simp add: parse_srt_def)
next
  have "parse_timecode ''00:00:01,500'' = Inr (Finite (3 / 2))" by code_simp
  then show "parse_timecode ''00:00:01,500'' = Inr (Finite (0 * 3600 + 0 * 60 + 1 + 500 / 1000))"
    by simp
next
  have "parse_timecode ''00:00:03,000'' = Inr (Finite 3)" by code_simp
  then show "parse_timecode ''00:00:03,000'' = Inr (Finite (0 * 3600 + 0 * 60 + 3 + 0 / 1000))"
    by simp
qed

text \<open>
  C4.  When nothing exists at the subtitle path, \<open>parse_srt\<close> prints one message, raises nothing
  and returns the empty cue list, and a lookup in the returned list gives \<open>None\<close> at every time.
\<close>

theorem parse_srt_missing_file:
  "parse_srt (fs(path := Missing)) path
     = ([''Subtitle file '' @ [CHR 0x27] @ path @ [CHR 0x27] @
          '' does not exist. Continuing without subtitles.''], Inr []) \<and>
   (case snd (parse_srt (fs(path := Missing)) path) of
      Inl e \<Rightarrow> False
    | Inr cues \<Rightarrow> find_active_cue cues t = None)"
  by (simp add: parse_srt_def)

text \<open>
  A timing line with a malformed timecode, or a line without the separator where a timing
  line is expected, is passed over and the blocks after it are parsed: this is what the
  \<open>try\<close> around the two calls of \<open>parse_timecode\<close> and the test for \<open>-->\<close> are for.
\<close>

lemma parse_srt_malformed_timecode_skipped:
  "parse_srt (fs(path := Text (''00:00:01,5x0 --> 00:00:03,000\<newline>Hello\<newline>\<newline>'' @
                               ''00:00:04,000 --> 00:00:05,000\<newline>Next\<newline>''))) path
     = ([], Inr [(Finite 4, Finite 5, [''Next''])])"
proof -
  have "parse_srt (\<lambda>p. Text (''00:00:01,5x0 --> 00:00:03,000\<newline>Hello\<newline>\<newline>'' @
                               ''00:00:04,000 --> 00:00:05,000\<newline>Next\<newline>'')) []
          = ([], Inr [(Finite 4, Finite 5, [''Next''])])"
    by code_simp
  then show ?thesis by (simp add: parse_srt_def)
qed

lemma parse_srt_noise_line_skipped:
  "parse_srt (fs(path := Text (''not a timing line\<newline>'' @
                               ''00:00:04,000 --> 00:00:05,000\<newline>Next\<newline>''))) path
     = ([], Inr [(Finite 4, Finite 5, [''Next''])])"
proof -
  have "parse_srt (\<lambda>p. Text (''not a timing line\<newline>'' @
                               ''00:00:04,000 --> 00:00:05,000\<newline>Next\<newline>'')) []
          = ([], Inr [(Finite 4, Finite 5, [''Next''])])"
    by code_simp
  then show ?thesis by (simp add: parse_srt_def)
qed

text \<open>
  C3.  A timing line with two separators makes \<open>parse_srt\<close> raise: the unpacking of the two
  timecode strings is outside the \<open>try\<close> that discards malformed cues, so ValueError leaves
  \<open>parse_srt\<close> and the well-formed block after the line is never reached.
\<close>

theorem parse_srt_two_separators_raises:
  "parse_srt (fs(path := Text (''00:00:01,000 --> 00:00:02,000 --> 00:00:03,000\<newline>Hello\<newline>\<newline>'' @
                               ''00:00:04,000 --> 00:00:05,000\<newline>Next\<newline>''))) path
     = ([], Inl ValueError)"
proof -
  have "parse_srt (\<lambda>p. Text (''00:00:01,000 --> 00:00:02,000 --> 00:00:03,000\<newline>Hello\<newline>\<newline>'' @
                               ''00:00:04,000 --> 00:00:05,000\<newline>Next\<newline>'')) []
          = ([], Inl ValueError)"
    by code_simp
  then show ?thesis by (simp add: parse_srt_def)
qed

subsection \<open>Timecodes of any width\<close>




































section \<open>Properties of the cue renderer\<close>

text \<open>
  What \<open>draw_lines\<close>, \<open>draw_backing\<close> and \<open>overlay_subtitle\<close> do to the heap and to the trace.
\<close>

lemma copy_simps [simp]:
  "heap (fst (copy m a)) = heap m @ [heap m ! a]"
  "trace (fst (copy m a)) = trace m"
  "snd (copy m a) = length (heap m)"
  by (simp_all add: copy_def)

lemma write_pixels_simps [simp]:
  "heap (write_pixels m a d ev) = (heap m)[a := (heap m ! a)\<lparr>px := d\<rparr>]"
  "trace (write_pixels m a d ev) = trace m @ [ev]"
  by (simp_all add: write_pixels_def)

lemma beta_half: "float_sub (Finite 1) (Finite (1 / 2)) = Finite (1 / 2)"
  by code_simp

lemma draw_lines_trace:
  "trace (draw_lines cv m r w y items) = trace m @ put_events r w y items"
  by (induction items arbitrary: m y) (auto simp: Let_def)

lemma draw_lines_length:
  "length (heap (draw_lines cv m r w y items)) = length (heap m)"
  by (induction items arbitrary: m y) (auto simp: Let_def)

lemma draw_lines_other:
  "b \<noteq> r \<Longrightarrow> heap (draw_lines cv m r w y items) ! b = heap m ! b"
  by (induction items arbitrary: m y) (auto simp: Let_def)

lemma draw_lines_shape:
  "r < length (heap m) \<Longrightarrow>
   heap (draw_lines cv m r w y items) ! r
     = (heap m ! r)\<lparr>px := px (heap (draw_lines cv m r w y items) ! r)\<rparr>"
proof (induction items arbitrary: m y)
  case Nil
  then show ?case by simp
next
  case (Cons it items)
  obtain line lw lh where it: "it = (line, lw, lh)" by (cases it)
  let ?m' = "write_pixels m r
               (putText cv (heap m ! r) line ((w - lw) div 2, y + lh) FONT_HERSHEY_SIMPLEX
                  font_scale (255, 255, 255) thickness LINE_AA)
               (PutText r line ((w - lw) div 2, y + lh) FONT_HERSHEY_SIMPLEX
                  font_scale (255, 255, 255) thickness LINE_AA)"
  have r: "r < length (heap ?m')" using Cons.prems by simp
  from Cons.IH [OF r, of "y + lh + line_spacing"]
  show ?case using Cons.prems by (simp add: it Let_def)
qed

lemma draw_lines_px:
  assumes "putText_within cv fp" "r < length (heap m)"
    and "(int x, int y0) \<notin> drawn_region fp (put_events r w y items)"
  shows "px (heap (draw_lines cv m r w y items) ! r) y0 x c = px (heap m ! r) y0 x c"
  using assms(2,3)
proof (induction items arbitrary: m y)
  case Nil
  then show ?case by simp
next
  case (Cons it items)
  obtain line lw lh where it: "it = (line, lw, lh)" by (cases it)
  let ?d = "putText cv (heap m ! r) line ((w - lw) div 2, y + lh) FONT_HERSHEY_SIMPLEX
                  font_scale (255, 255, 255) thickness LINE_AA"
  let ?m' = "write_pixels m r ?d
               (PutText r line ((w - lw) div 2, y + lh) FONT_HERSHEY_SIMPLEX
                  font_scale (255, 255, 255) thickness LINE_AA)"
  have r: "r < length (heap ?m')" using Cons.prems by simp
  have out: "(int x, int y0) \<notin> fp line ((w - lw) div 2, y + lh) FONT_HERSHEY_SIMPLEX font_scale thickness"
    and rest: "(int x, int y0) \<notin> drawn_region fp (put_events r w (y + lh + line_spacing) items)"
    using Cons.prems(2) by (simp_all add: it drawn_region_def)
  have "px (heap (draw_lines cv ?m' r w (y + lh + line_spacing) items) ! r) y0 x c
          = px (heap ?m' ! r) y0 x c"
    using r rest by (rule Cons.IH)
  also have "\<dots> = ?d y0 x c" using Cons.prems(1) by simp
  also have "\<dots> = px (heap m ! r) y0 x c"
    using assms(1) out by (simp add: putText_within_def)
  finally show ?case by (simp add: it Let_def)
qed

lemma draw_backing_result:
  fixes cv :: cv2 and m1 :: machine and res :: nat and lines :: "string list"
  defines "sizes \<equiv> map (\<lambda>l. fst (getTextSize cv l FONT_HERSHEY_SIMPLEX font_scale thickness)) lines"
  defines "mw \<equiv> py_max (fst (hd sizes)) (map fst (tl sizes))"
  defines "tth \<equiv> sum_list (map snd sizes) + (int (length lines) - 1) * 10"
  defines "ys \<equiv> int (rows (heap m1 ! res)) - 20 - tth"
  defines "xs \<equiv> (int (cols (heap m1 ! res)) - mw) div 2"
  defines "n \<equiv> length (heap m1)"
  defines "ov \<equiv> (heap m1 ! res)\<lparr>px := rectangle cv (heap m1 ! res) (xs - 10, ys - 5)
                                         (xs + mw + 10, ys + tth + 5) (0, 0, 0) (- 1)\<rparr>"
  assumes res: "res < length (heap m1)"
  shows "draw_backing cv m1 res lines =
           (m1\<lparr>heap := (heap m1)[res := (heap m1 ! res)\<lparr>px :=
                           addWeighted cv ov (Finite (1 / 2)) (heap m1 ! res) (Finite (1 / 2))
                             (Finite 0) (heap m1 ! res)\<rparr>] @ [ov],
               trace := trace m1 @
                 [Rectangle n (xs - 10, ys - 5) (xs + mw + 10, ys + tth + 5) (0, 0, 0) (- 1),
                  AddWeighted n (Finite (1 / 2)) res (Finite (1 / 2)) (Finite 0) res]\<rparr>,
            ys, sizes)"
  using res
  unfolding draw_backing_def sizes_def mw_def tth_def ys_def xs_def n_def ov_def
  by (simp add: Let_def copy_def write_pixels_def beta_half alpha_def line_spacing_def
        margin_bottom_def nth_append list_update_append)



lemma overlay_subtitle_empty:
  "overlay_subtitle cv m frame [] = (m\<lparr>heap := heap m @ [heap m ! frame]\<rparr>, length (heap m))"
  by (simp add: overlay_subtitle_def copy_def)

lemma overlay_subtitle_nonempty:
  fixes cv :: cv2 and m :: machine and frame :: nat and lines :: "string list"
  defines "F \<equiv> heap m ! frame"
  defines "sizes \<equiv> map (\<lambda>l. fst (getTextSize cv l FONT_HERSHEY_SIMPLEX font_scale thickness)) lines"
  defines "mw \<equiv> py_max (fst (hd sizes)) (map fst (tl sizes))"
  defines "tth \<equiv> sum_list (map snd sizes) + (int (length lines) - 1) * 10"
  defines "ys \<equiv> int (rows F) - 20 - tth"
  defines "xs \<equiv> (int (cols F) - mw) div 2"
  defines "n \<equiv> length (heap m)"
  defines "ov \<equiv> F\<lparr>px := rectangle cv F (xs - 10, ys - 5) (xs + mw + 10, ys + tth + 5)
                           (0, 0, 0) (- 1)\<rparr>"
  defines "m4 \<equiv> m\<lparr>heap := heap m @
                        [F\<lparr>px := addWeighted cv ov (Finite (1 / 2)) F (Finite (1 / 2)) (Finite 0) F\<rparr>,
                         ov],
                     trace := trace m @
                        [Rectangle (Suc n) (xs - 10, ys - 5) (xs + mw + 10, ys + tth + 5)
                           (0, 0, 0) (- 1),
                         AddWeighted (Suc n) (Finite (1 / 2)) n (Finite (1 / 2)) (Finite 0) n]\<rparr>"
  assumes ne: "lines \<noteq> []"
  shows "draw_backing cv (fst (copy m frame)) n lines = (m4, ys, sizes)"
    and "overlay_subtitle cv m frame lines
           = (draw_lines cv m4 n (int (cols F)) ys (zip lines sizes), n)"
proof -
  let ?m1 = "fst (copy m frame)"
  have r: "n < length (heap ?m1)" by (simp add: n_def)
  have F: "heap ?m1 ! n = F" by (simp add: n_def F_def)
  have l: "length (heap ?m1) = Suc n" by (simp add: n_def)
  show 1: "draw_backing cv ?m1 n lines = (m4, ys, sizes)"
    unfolding draw_backing_result [OF r] F l
    unfolding m4_def ov_def xs_def ys_def tth_def mw_def sizes_def
    by (simp add: n_def F_def copy_def)
  have d1: "draw_backing cv (m\<lparr>heap := heap m @ [heap m ! frame]\<rparr>) (length (heap m)) lines
               = (m4, ys, sizes)"
    using 1 by (simp add: copy_def n_def)
  show "overlay_subtitle cv m frame lines
           = (draw_lines cv m4 n (int (cols F)) ys (zip lines sizes), n)"
    using ne by (simp add: overlay_subtitle_def copy_def d1 n_def F_def)
qed

lemma overlay_subtitle_form:
  assumes "lines \<noteq> []"
  obtains d ov evs w ys items where
    "overlay_subtitle cv m frame lines
       = (draw_lines cv (m\<lparr>heap := heap m @ [(heap m ! frame)\<lparr>px := d\<rparr>, ov],
                            trace := trace m @ evs\<rparr>) (length (heap m)) w ys items,
          length (heap m))"
  using overlay_subtitle_nonempty(2) [OF assms, of cv m frame] by blast

lemma overlay_subtitle_frame:
  shows "snd (overlay_subtitle cv m frame lines) = length (heap m)"
    and "length (heap m) < length (heap (fst (overlay_subtitle cv m frame lines)))"
    and "b < length (heap m) \<Longrightarrow> heap (fst (overlay_subtitle cv m frame lines)) ! b = heap m ! b"
    and "heap (fst (overlay_subtitle cv m frame lines)) ! length (heap m)
           = (heap m ! frame)\<lparr>px := px (heap (fst (overlay_subtitle cv m frame lines)) ! length (heap m))\<rparr>"
proof -
  let ?n = "length (heap m)"
  let ?r = "overlay_subtitle cv m frame lines"
  have "snd ?r = ?n \<and> ?n < length (heap (fst ?r)) \<and>
        (b < ?n \<longrightarrow> heap (fst ?r) ! b = heap m ! b) \<and>
        heap (fst ?r) ! ?n = (heap m ! frame)\<lparr>px := px (heap (fst ?r) ! ?n)\<rparr>"
  proof (cases "lines = []")
    case True
    then show ?thesis by (simp add: overlay_subtitle_empty nth_append)
  next
    case False
    then obtain d ov evs w ys items where
      o: "?r = (draw_lines cv (m\<lparr>heap := heap m @ [(heap m ! frame)\<lparr>px := d\<rparr>, ov],
                                 trace := trace m @ evs\<rparr>) ?n w ys items, ?n)"
      by (rule overlay_subtitle_form)
    define m4 where "m4 = m\<lparr>heap := heap m @ [(heap m ! frame)\<lparr>px := d\<rparr>, ov],
                             trace := trace m @ evs\<rparr>"
    have h4: "heap m4 = heap m @ [(heap m ! frame)\<lparr>px := d\<rparr>, ov]" by (simp add: m4_def)
    have n4: "?n < length (heap m4)" by (simp add: h4)
    have r: "?r = (draw_lines cv m4 ?n w ys items, ?n)" using o by (simp add: m4_def)
    have a: "snd ?r = ?n" by (simp add: r)
    have b: "?n < length (heap (fst ?r))" by (simp add: r draw_lines_length h4)
    have c: "b < ?n \<longrightarrow> heap (fst ?r) ! b = heap m ! b"
      by (simp add: r draw_lines_other h4 nth_append)
    have "heap (fst ?r) ! ?n = (heap m4 ! ?n)\<lparr>px := px (heap (fst ?r) ! ?n)\<rparr>"
      using draw_lines_shape [OF n4, of cv w ys items] by (simp add: r)
    then have d: "heap (fst ?r) ! ?n = (heap m ! frame)\<lparr>px := px (heap (fst ?r) ! ?n)\<rparr>"
      by (simp add: h4)
    from a b c d show ?thesis by blast
  qed
  then show "snd ?r = ?n" and "?n < length (heap (fst ?r))"
    and "b < ?n \<Longrightarrow> heap (fst ?r) ! b = heap m ! b"
    and "heap (fst ?r) ! ?n = (heap m ! frame)\<lparr>px := px (heap (fst ?r) ! ?n)\<rparr>"
    by blast+
qed

lemma drawn_region_append [simp]:
  "drawn_region fp (xs @ ys) = drawn_region fp xs \<union> drawn_region fp ys"
  by (auto simp: drawn_region_def)

lemma drawn_region_Cons [simp]:
  "drawn_region fp (ev # evs) = event_region fp ev \<union> drawn_region fp evs"
  by (auto simp: drawn_region_def)

lemma drawn_region_Nil [simp]: "drawn_region fp [] = {}"
  by (simp add: drawn_region_def)

lemma overlay_subtitle_steps:
  assumes "lines \<noteq> []"
  obtains p1 p2 items w ys where
    "overlay_subtitle cv m frame lines
       = (draw_lines cv
            (m\<lparr>heap := heap m @
                  [(heap m ! frame)\<lparr>px :=
                      addWeighted cv
                        ((heap m ! frame)\<lparr>px := rectangle cv (heap m ! frame) p1 p2 (0, 0, 0) (- 1)\<rparr>)
                        (Finite (1 / 2)) (heap m ! frame) (Finite (1 / 2)) (Finite 0)
                        (heap m ! frame)\<rparr>,
                   (heap m ! frame)\<lparr>px := rectangle cv (heap m ! frame) p1 p2 (0, 0, 0) (- 1)\<rparr>],
               trace := trace m @
                  [Rectangle (Suc (length (heap m))) p1 p2 (0, 0, 0) (- 1),
                   AddWeighted (Suc (length (heap m))) (Finite (1 / 2)) (length (heap m))
                     (Finite (1 / 2)) (Finite 0) (length (heap m))]\<rparr>)
            (length (heap m)) w ys items,
          length (heap m))"
  by (rule that [OF overlay_subtitle_nonempty(2) [OF assms]])

lemma rectangle_fillsD:
  "rectangle_fills cv \<Longrightarrow> t < 0 \<Longrightarrow>
   rectangle cv img p1 p2 col t y x c =
     (if in_box p1 p2 (int x, int y) then scalar_channel col c else px img y x c)"
  unfolding rectangle_fills_def by blast

lemma addWeighted_blendsD:
  "addWeighted_blends cv sat \<Longrightarrow>
   addWeighted cv src1 (Finite a) src2 (Finite b) (Finite g) dst y x c =
     sat (dtype dst) (a * px src1 y x c + b * px src2 y x c + g)"
  unfolding addWeighted_blends_def by blast

lemma putText_withinD:
  "putText_within cv fp \<Longrightarrow> (int x, int y) \<notin> fp text org font scale th \<Longrightarrow>
   putText cv img text org font scale col th lt y x c = px img y x c"
  unfolding putText_within_def by blast

lemma blend_outside:
  assumes "rectangle_fills cv" "addWeighted_blends cv sat" "holds_values sat F"
    and "\<not> in_box p1 p2 (int x, int y)"
  shows "addWeighted cv (F\<lparr>px := rectangle cv F p1 p2 col (- 1)\<rparr>) (Finite (1 / 2)) F
           (Finite (1 / 2)) (Finite 0) F y x c = px F y x c"
proof -
  have "rectangle cv F p1 p2 col (- 1) y x c = px F y x c"
    using assms(4) by (simp add: rectangle_fillsD [OF assms(1)])
  then have "addWeighted cv (F\<lparr>px := rectangle cv F p1 p2 col (- 1)\<rparr>) (Finite (1 / 2)) F
           (Finite (1 / 2)) (Finite 0) F y x c = sat (dtype F) (px F y x c)"
    by (simp add: addWeighted_blendsD [OF assms(2)])
  then show ?thesis using assms(3) by (simp add: holds_values_def)
qed


lemma overlay_subtitle_outside:
  assumes c: "rectangle_fills cv" "addWeighted_blends cv sat" "putText_within cv fp"
    and v: "holds_values sat (heap m ! frame)"
    and out: "(int x, int y) \<notin> drawn_region fp
                (drop (length (trace m)) (trace (fst (overlay_subtitle cv m frame lines))))"
  shows "px (heap (fst (overlay_subtitle cv m frame lines)) ! length (heap m)) y x c
           = px (heap m ! frame) y x c"
proof (cases "lines = []")
  case True
  then show ?thesis by (simp add: overlay_subtitle_empty)
next
  case False
  let ?F = "heap m ! frame"
  let ?n = "length (heap m)"
  obtain p1 p2 items w ys where
    o: "overlay_subtitle cv m frame lines
       = (draw_lines cv
            (m\<lparr>heap := heap m @
                  [?F\<lparr>px := addWeighted cv (?F\<lparr>px := rectangle cv ?F p1 p2 (0, 0, 0) (- 1)\<rparr>)
                        (Finite (1 / 2)) ?F (Finite (1 / 2)) (Finite 0) ?F\<rparr>,
                   ?F\<lparr>px := rectangle cv ?F p1 p2 (0, 0, 0) (- 1)\<rparr>],
               trace := trace m @
                  [Rectangle (Suc ?n) p1 p2 (0, 0, 0) (- 1),
                   AddWeighted (Suc ?n) (Finite (1 / 2)) ?n (Finite (1 / 2)) (Finite 0) ?n]\<rparr>)
            ?n w ys items, ?n)"
    using False by (rule overlay_subtitle_steps)
  define d where "d = addWeighted cv (?F\<lparr>px := rectangle cv ?F p1 p2 (0, 0, 0) (- 1)\<rparr>)
                        (Finite (1 / 2)) ?F (Finite (1 / 2)) (Finite 0) ?F"
  define m4 where "m4 = m\<lparr>heap := heap m @ [?F\<lparr>px := d\<rparr>,
                                ?F\<lparr>px := rectangle cv ?F p1 p2 (0, 0, 0) (- 1)\<rparr>],
               trace := trace m @
                  [Rectangle (Suc ?n) p1 p2 (0, 0, 0) (- 1),
                   AddWeighted (Suc ?n) (Finite (1 / 2)) ?n (Finite (1 / 2)) (Finite 0) ?n]\<rparr>"
  have r: "overlay_subtitle cv m frame lines = (draw_lines cv m4 ?n w ys items, ?n)"
    using o by (simp add: m4_def d_def)
  have n4: "?n < length (heap m4)" by (simp add: m4_def)
  have new: "drop (length (trace m)) (trace (fst (overlay_subtitle cv m frame lines)))
          = [Rectangle (Suc ?n) p1 p2 (0, 0, 0) (- 1),
             AddWeighted (Suc ?n) (Finite (1 / 2)) ?n (Finite (1 / 2)) (Finite 0) ?n]
            @ put_events ?n w ys items"
    by (simp add: r draw_lines_trace m4_def)
  from out have nb: "\<not> in_box p1 p2 (int x, int y)"
    and np: "(int x, int y) \<notin> drawn_region fp (put_events ?n w ys items)"
    unfolding new by simp_all
  have "px (heap (draw_lines cv m4 ?n w ys items) ! ?n) y x c = px (heap m4 ! ?n) y x c"
    using c(3) n4 np by (rule draw_lines_px)
  also have "\<dots> = d y x c" by (simp add: m4_def)
  also have "\<dots> = px ?F y x c"
    unfolding d_def using c(1,2) v nb by (rule blend_outside)
  finally show ?thesis by (simp add: r)
qed

lemma plain_contracts:
  "rectangle_fills plain_cv" "addWeighted_blends plain_cv plain_sat"
  "putText_within plain_cv plain_fp" "holds_values plain_sat a"
  by (simp_all add: rectangle_fills_def addWeighted_blends_def putText_within_def holds_values_def
        plain_cv_def plain_sat_def plain_fp_def)


lemma plain_overlay_trace:
  "trace (fst (overlay_subtitle plain_cv \<lparr>heap = [grey_frame], trace = []\<rparr> 0 [''Hi'']))
     = [Rectangle 2 (80, 63) (120, 85) (0, 0, 0) (- 1),
        AddWeighted 2 (Finite (1 / 2)) 1 (Finite (1 / 2)) (Finite 0) 1,
        PutText 1 ''Hi'' (90, 80) FONT_HERSHEY_SIMPLEX font_scale (255, 255, 255) thickness LINE_AA]"
  by (simp add: overlay_subtitle_def draw_backing_def copy_def write_pixels_def Let_def
        plain_cv_def grey_frame_def beta_half alpha_def line_spacing_def margin_bottom_def)




text \<open>
  C5.  With an empty list of lines, \<open>overlay_subtitle\<close> returns a new array equal to the input
  frame in every field (shape, element type and pixel values); no array that existed is
  changed and no call of the library is recorded: nothing is drawn.
\<close>

theorem overlay_subtitle_no_lines:
  "overlay_subtitle cv m frame [] = (m\<lparr>heap := heap m @ [heap m ! frame]\<rparr>, length (heap m)) \<and>
   heap (fst (overlay_subtitle cv m frame [])) ! snd (overlay_subtitle cv m frame [])
     = heap m ! frame \<and>
   take (length (heap m)) (heap (fst (overlay_subtitle cv m frame []))) = heap m \<and>
   trace (fst (overlay_subtitle cv m frame [])) = trace m"
  by (simp add: overlay_subtitle_empty)


text \<open>
  C6.  \<open>overlay_subtitle\<close> changes no array that existed before the call, the input frame
  among them.  What it returns is a reference to a new array with the rows, columns, channels
  and element type of the input, and, for a library that does what is assumed of it and a
  frame that holds values of its element type, every pixel outside the region of the drawing
  calls made (the rectangle and the footprints of the texts) has the value it has in the input.
\<close>

theorem overlay_subtitle_frame_effect:
  "(\<forall>b<length (heap m). heap (fst (overlay_subtitle cv m frame lines)) ! b = heap m ! b) \<and>
   snd (overlay_subtitle cv m frame lines) = length (heap m) \<and>
   snd (overlay_subtitle cv m frame lines) < length (heap (fst (overlay_subtitle cv m frame lines))) \<and>
   rows (heap (fst (overlay_subtitle cv m frame lines)) ! snd (overlay_subtitle cv m frame lines))
     = rows (heap m ! frame) \<and>
   cols (heap (fst (overlay_subtitle cv m frame lines)) ! snd (overlay_subtitle cv m frame lines))
     = cols (heap m ! frame) \<and>
   channels (heap (fst (overlay_subtitle cv m frame lines)) ! snd (overlay_subtitle cv m frame lines))
     = channels (heap m ! frame) \<and>
   dtype (heap (fst (overlay_subtitle cv m frame lines)) ! snd (overlay_subtitle cv m frame lines))
     = dtype (heap m ! frame) \<and>
   (rectangle_fills cv \<and> addWeighted_blends cv sat \<and> putText_within cv fp \<and>
    holds_values sat (heap m ! frame) \<longrightarrow>
      (\<forall>y x c.
         (int x, int y) \<notin> drawn_region fp
            (drop (length (trace m)) (trace (fst (overlay_subtitle cv m frame lines))))
         \<longrightarrow> px (heap (fst (overlay_subtitle cv m frame lines)) !
                   snd (overlay_subtitle cv m frame lines)) y x c
             = px (heap m ! frame) y x c))"
proof -
  let ?r = "overlay_subtitle cv m frame lines"
  note f = overlay_subtitle_frame [where cv = cv and m = m and frame = frame and lines = lines]
  have s: "heap (fst ?r) ! snd ?r = (heap m ! frame)\<lparr>px := px (heap (fst ?r) ! snd ?r)\<rparr>"
    using f(4) by (simp add: f(1))
  have 1: "\<forall>b<length (heap m). heap (fst ?r) ! b = heap m ! b" using f(3) by blast
  have 2: "snd ?r = length (heap m)" by (rule f(1))
  have 3: "snd ?r < length (heap (fst ?r))" using f(2) by (simp add: f(1))
  have 4: "rows (heap (fst ?r) ! snd ?r) = rows (heap m ! frame)" by (subst s) simp
  have 5: "cols (heap (fst ?r) ! snd ?r) = cols (heap m ! frame)" by (subst s) simp
  have 6: "channels (heap (fst ?r) ! snd ?r) = channels (heap m ! frame)" by (subst s) simp
  have 7: "dtype (heap (fst ?r) ! snd ?r) = dtype (heap m ! frame)" by (subst s) simp
  have 8: "rectangle_fills cv \<and> addWeighted_blends cv sat \<and> putText_within cv fp \<and>
    holds_values sat (heap m ! frame) \<longrightarrow>
      (\<forall>y x c.
         (int x, int y) \<notin> drawn_region fp (drop (length (trace m)) (trace (fst ?r)))
         \<longrightarrow> px (heap (fst ?r) ! snd ?r) y x c = px (heap m ! frame) y x c)"
    using overlay_subtitle_outside [where cv = cv and sat = sat and fp = fp and m = m
        and frame = frame and lines = lines] by (simp add: f(1))
  from 1 2 3 4 5 6 7 8 show ?thesis by blast
qed

theorem overlay_subtitle_frame_effect_witness:
  "heap (fst (overlay_subtitle plain_cv \<lparr>heap = [grey_frame], trace = []\<rparr> 0 [''Hi''])) ! 0
     = grey_frame \<and>
   snd (overlay_subtitle plain_cv \<lparr>heap = [grey_frame], trace = []\<rparr> 0 [''Hi'']) = 1 \<and>
   rows (heap (fst (overlay_subtitle plain_cv \<lparr>heap = [grey_frame], trace = []\<rparr> 0 [''Hi''])) ! 1)
     = 100 \<and>
   px (heap (fst (overlay_subtitle plain_cv \<lparr>heap = [grey_frame], trace = []\<rparr> 0 [''Hi''])) ! 1)
     0 0 0 = 100"
proof -
  let ?m = "\<lparr>heap = [grey_frame], trace = []\<rparr>"
  let ?r = "overlay_subtitle plain_cv ?m 0 [''Hi'']"
  note t = overlay_subtitle_frame_effect
    [where cv = plain_cv and m = ?m and frame = 0 and lines = "[''Hi'']"
       and sat = plain_sat and fp = plain_fp]
  have c: "rectangle_fills plain_cv \<and> addWeighted_blends plain_cv plain_sat \<and>
           putText_within plain_cv plain_fp \<and> holds_values plain_sat (heap ?m ! 0)"
    using plain_contracts by blast
  have o: "(int 0, int 0) \<notin> drawn_region plain_fp (drop (length (trace ?m)) (trace (fst ?r)))"
    by (simp add: plain_overlay_trace plain_fp_def in_box_def)
  from t have 1: "heap (fst ?r) ! 0 = heap ?m ! 0" by simp
  from t have 2: "snd ?r = 1" by simp
  from t have 3: "rows (heap (fst ?r) ! snd ?r) = rows (heap ?m ! 0)" by blast
  from t c o have 4: "px (heap (fst ?r) ! snd ?r) 0 0 0 = px (heap ?m ! 0) 0 0 0" by blast
  from 1 2 3 4 show ?thesis by (simp add: grey_frame_def)
qed



section \<open>Properties of the playback loop\<close>

text \<open>
  \<open>player_ok\<close> holds when the loop is entered and every part of the loop body keeps it.  The
  loop of \<open>mkv_player_v2.py\<close>, which draws no subtitles, is the one of \<open>mkv_player.py\<close> with
  an empty cue list.
\<close>

lemma latest_decoded_append:
  "latest_decoded acc (xs @ ys) = latest_decoded (latest_decoded acc xs) ys"
  by (induction acc xs rule: latest_decoded.induct) simp_all

lemma latest_decoded_keep:
  "\<forall>e\<in>set evs. \<forall>f. e \<noteq> Decoded f \<Longrightarrow> latest_decoded acc evs = acc"
  by (induction acc evs rule: latest_decoded.induct) simp_all

lemma raw_screenshots_append:
  assumes "raw_screenshots tr" and "\<forall>e\<in>set evs. \<forall>path d. e \<noteq> Imwrite path d"
  shows "raw_screenshots (tr @ evs)"
  unfolding raw_screenshots_def
proof (intro allI impI)
  fix i path d
  assume i: "i < length (tr @ evs)" and w: "(tr @ evs) ! i = Imwrite path d"
  have "i < length tr"
  proof (rule ccontr)
    assume "\<not> i < length tr"
    then have "(tr @ evs) ! i = evs ! (i - length tr)" "i - length tr < length evs"
      using i by (simp_all add: nth_append)
    with w assms(2) show False by (metis nth_mem)
  qed
  then show "latest_decoded None (take i (tr @ evs)) = Some d"
    using assms(1) w by (simp add: raw_screenshots_def nth_append)
qed

lemma raw_screenshots_imwrite:
  assumes "raw_screenshots tr" and "latest_decoded None tr = Some d"
  shows "raw_screenshots (tr @ [Imwrite path d])"
  unfolding raw_screenshots_def
proof (intro allI impI)
  fix i path' d'
  assume i: "i < length (tr @ [Imwrite path d])"
    and w: "(tr @ [Imwrite path d]) ! i = Imwrite path' d'"
  show "latest_decoded None (take i (tr @ [Imwrite path d])) = Some d'"
  proof (cases "i < length tr")
    case True
    then show ?thesis using assms(1) w by (simp add: raw_screenshots_def nth_append)
  next
    case False
    then have "i = length tr" using i by simp
    then show ?thesis using w assms(2) by simp
  qed
qed

lemma put_events_all_drawing: "\<forall>e\<in>set (put_events r w y items). drawing e"
  by (induction items arbitrary: y) auto

lemma overlay_subtitle_trace:
  "\<exists>evs. trace (fst (overlay_subtitle cv m frame lines)) = trace m @ evs \<and>
         (\<forall>e\<in>set evs. drawing e)"
proof (cases "lines = []")
  case True
  then show ?thesis by (simp add: overlay_subtitle_empty)
next
  case False
  then obtain p1 p2 items w ys where
    o: "overlay_subtitle cv m frame lines
       = (draw_lines cv
            (m\<lparr>heap := heap m @
                  [(heap m ! frame)\<lparr>px :=
                      addWeighted cv
                        ((heap m ! frame)\<lparr>px := rectangle cv (heap m ! frame) p1 p2 (0, 0, 0) (- 1)\<rparr>)
                        (Finite (1 / 2)) (heap m ! frame) (Finite (1 / 2)) (Finite 0)
                        (heap m ! frame)\<rparr>,
                   (heap m ! frame)\<lparr>px := rectangle cv (heap m ! frame) p1 p2 (0, 0, 0) (- 1)\<rparr>],
               trace := trace m @
                  [Rectangle (Suc (length (heap m))) p1 p2 (0, 0, 0) (- 1),
                   AddWeighted (Suc (length (heap m))) (Finite (1 / 2)) (length (heap m))
                     (Finite (1 / 2)) (Finite 0) (length (heap m))]\<rparr>)
            (length (heap m)) w ys items,
          length (heap m))"
    by (rule overlay_subtitle_steps)
  have "trace (fst (overlay_subtitle cv m frame lines)) = trace m @
          ([Rectangle (Suc (length (heap m))) p1 p2 (0, 0, 0) (- 1),
            AddWeighted (Suc (length (heap m))) (Finite (1 / 2)) (length (heap m))
              (Finite (1 / 2)) (Finite 0) (length (heap m))] @ put_events (length (heap m)) w ys items)"
    by (simp add: o draw_lines_trace)
  moreover have "\<forall>e\<in>set ([Rectangle (Suc (length (heap m))) p1 p2 (0, 0, 0) (- 1),
            AddWeighted (Suc (length (heap m))) (Finite (1 / 2)) (length (heap m))
              (Finite (1 / 2)) (Finite 0) (length (heap m))] @ put_events (length (heap m)) w ys items).
            drawing e"
    using put_events_all_drawing by simp
  ultimately show ?thesis by blast
qed

lemma drawing_not_decoded: "drawing e \<Longrightarrow> e \<noteq> Decoded f \<and> e \<noteq> Imwrite path d"
  by (cases e) simp_all

lemma show_frame_effect:
  assumes cur: "cur < length (heap m)"
  shows "\<exists>evs. trace (show_frame cv cues pos m cur) = trace m @ evs \<and>
               (\<forall>e\<in>set evs. \<forall>f path d. e \<noteq> Decoded f \<and> e \<noteq> Imwrite path d)"
    and "cur < length (heap (show_frame cv cues pos m cur))"
    and "heap (show_frame cv cues pos m cur) ! cur = heap m ! cur"
proof -
  define m1 where "m1 = m\<lparr>heap := heap m @ [heap m ! cur]\<rparr>"
  define n where "n = length (heap m)"
  define X where "X = (if cues \<noteq> [] then
               (case find_active_cue cues (float_div_pos pos 1000) of
                  None \<Rightarrow> (m1, n)
                | Some subtitle_lines \<Rightarrow>
                    if subtitle_lines \<noteq> [] then overlay_subtitle cv m1 n subtitle_lines
                    else (m1, n))
             else (m1, n))"
  have sf: "show_frame cv cues pos m cur = emit (Imshow window_name (heap (fst X) ! snd X)) (fst X)"
    unfolding show_frame_def copy_def Let_def X_def m1_def n_def split_beta fst_conv snd_conv
    by (rule refl)
  have h1: "heap m1 = heap m @ [heap m ! cur]" and t1: "trace m1 = trace m"
    by (simp_all add: m1_def)
  have X: "X = (m1, n) \<or> (\<exists>lines. X = overlay_subtitle cv m1 n lines)"
    by (auto simp: X_def split: option.splits)
  have c1: "cur < length (heap m1)" using cur by (simp add: h1)
  have P: "(\<exists>evs. trace (fst X) = trace m @ evs \<and> (\<forall>e\<in>set evs. drawing e)) \<and>
           cur < length (heap (fst X)) \<and> heap (fst X) ! cur = heap m ! cur"
  proof -
    from X show ?thesis
    proof
      assume "X = (m1, n)"
      then show ?thesis using cur by (simp add: h1 t1 nth_append)
    next
      assume "\<exists>lines. X = overlay_subtitle cv m1 n lines"
      then obtain lines where x: "X = overlay_subtitle cv m1 n lines" by blast
      from overlay_subtitle_trace [of cv m1 n lines]
      have a: "\<exists>evs. trace (fst X) = trace m @ evs \<and> (\<forall>e\<in>set evs. drawing e)"
        by (simp add: x t1)
      have "length (heap m1) < length (heap (fst X))"
        unfolding x by (rule overlay_subtitle_frame(2))
      then have b: "cur < length (heap (fst X))" using c1 by simp
      have "heap (fst X) ! cur = heap m1 ! cur"
        unfolding x using c1 by (rule overlay_subtitle_frame(3))
      then have c: "heap (fst X) ! cur = heap m ! cur" using cur by (simp add: h1 nth_append)
      from a b c show ?thesis by blast
    qed
  qed
  then obtain evs where e: "trace (fst X) = trace m @ evs" "\<forall>e\<in>set evs. drawing e" by blast
  have "trace (show_frame cv cues pos m cur)
          = trace m @ (evs @ [Imshow window_name (heap (fst X) ! snd X)])"
    by (simp add: sf emit_def e(1))
  moreover have "\<forall>e\<in>set (evs @ [Imshow window_name (heap (fst X) ! snd X)]).
                   \<forall>f path d. e \<noteq> Decoded f \<and> e \<noteq> Imwrite path d"
    using e(2) drawing_not_decoded by auto
  ultimately show "\<exists>evs. trace (show_frame cv cues pos m cur) = trace m @ evs \<and>
               (\<forall>e\<in>set evs. \<forall>f path d. e \<noteq> Decoded f \<and> e \<noteq> Imwrite path d)"
    by blast
  show "cur < length (heap (show_frame cv cues pos m cur))" using P by (simp add: sf emit_def)
  show "heap (show_frame cv cues pos m cur) ! cur = heap m ! cur" using P by (simp add: sf emit_def)
qed

lemma player_ok_read_frame: "player_ok p \<Longrightarrow> player_ok (read_frame p)"
  by (auto simp: player_ok_def read_frame_def emit_def latest_decoded_append nth_append
        intro!: raw_screenshots_append split: list.splits)

lemma player_ok_show:
  assumes "player_ok p" "current_frame p = Some cur"
  shows "player_ok (p\<lparr>machine := show_frame cv cues pos (machine p) cur\<rparr>)"
proof -
  from assms have cur: "cur < length (heap (machine p))"
    and l: "latest_decoded None (trace (machine p)) = Some (heap (machine p) ! cur)"
    and r: "raw_screenshots (trace (machine p))"
    by (simp_all add: player_ok_def)
  from show_frame_effect(1) [OF cur, of cv cues pos] obtain evs where
    t: "trace (show_frame cv cues pos (machine p) cur) = trace (machine p) @ evs"
    and e: "\<forall>e\<in>set evs. \<forall>f path d. e \<noteq> Decoded f \<and> e \<noteq> Imwrite path d"
    by blast
  have 1: "raw_screenshots (trace (machine p) @ evs)"
    using r e by (intro raw_screenshots_append) blast+
  have 2: "latest_decoded None (trace (machine p) @ evs) = Some (heap (machine p) ! cur)"
    using e l by (simp add: latest_decoded_append latest_decoded_keep)
  show ?thesis
    using 1 2 assms(2) show_frame_effect(2,3) [OF cur, of cv cues pos]
    by (simp add: player_ok_def t)
qed

lemma player_ok_handle_key:
  assumes "player_ok p" "current_frame p = Some cur"
  shows "player_ok (handle_key join output_dir t cur p)"
proof -
  from assms have l: "latest_decoded None (trace (machine p)) = Some (heap (machine p) ! cur)"
    and r: "raw_screenshots (trace (machine p))"
    and c: "cur < length (heap (machine p))"
    by (simp_all add: player_ok_def)
  have w: "raw_screenshots (trace (machine p) @ [Imwrite path (heap (machine p) ! cur)])" for path
    using r l by (rule raw_screenshots_imwrite)
  have pr: "raw_screenshots (tr @ [Print s])" if "raw_screenshots tr" for tr s
    using that by (intro raw_screenshots_append) simp_all
  have w2: "raw_screenshots (trace (machine p) @ [Imwrite path (heap (machine p) ! cur), Print s])"
    for path s
    using pr [OF w, of path s] by simp
  show ?thesis
    using assms(2) l r c w2 pr
    by (auto simp: handle_key_def player_ok_def Let_def emit_def latest_decoded_append)
qed

lemma player_ok_loop_body: "player_ok p \<Longrightarrow> player_ok (loop_body cv join cues output_dir t p)"
proof -
  assume p: "player_ok p"
  let ?p1 = "read_frame p"
  have p1: "player_ok ?p1" using p by (rule player_ok_read_frame)
  show ?thesis
  proof (cases "running ?p1")
    case False
    then show ?thesis using p1 by (simp add: loop_body_def Let_def)
  next
    case True
    show ?thesis
    proof (cases "current_frame ?p1")
      case None
      then show ?thesis using p1 True by (simp add: loop_body_def Let_def player_ok_def)
    next
      case (Some cur)
      have s: "player_ok (?p1\<lparr>machine := show_frame cv cues (pos_msec t) (machine ?p1) cur\<rparr>)"
        using p1 Some by (rule player_ok_show)
      have "player_ok (handle_key join output_dir t cur
              (?p1\<lparr>machine := show_frame cv cues (pos_msec t) (machine ?p1) cur\<rparr>))"
        using s by (rule player_ok_handle_key) (simp add: Some)
      then show ?thesis using True Some by (simp add: loop_body_def Let_def)
    qed
  qed
qed

lemma player_ok_main_loop:
  "player_ok p \<Longrightarrow> player_ok (main_loop cv join cues output_dir ticks p)"
  by (induction ticks arbitrary: p) (auto simp: Let_def player_ok_loop_body)

lemma player_ok_start: "player_ok (start frames)"
  by (simp add: player_ok_def start_def raw_screenshots_def)

lemma round_double_one: "float_div_pos (Finite 1000) 1000 = Finite 1"
  by code_simp

lemma plain_run_screenshot:
  "trace (machine (main_loop plain_cv slash_join [(Finite 0, Finite 5, [''Hi''])] ''screenshots''
            [\<lparr>pos_msec = Finite 1000, key_code = 115, timestamp = ''20240101_120000_123456''\<rparr>]
            (start [grey_frame]))) ! 5
     = Imwrite ''screenshots/screenshot_20240101_120000_123.png'' grey_frame \<and>
   length (trace (machine (main_loop plain_cv slash_join [(Finite 0, Finite 5, [''Hi''])] ''screenshots''
            [\<lparr>pos_msec = Finite 1000, key_code = 115, timestamp = ''20240101_120000_123456''\<rparr>]
            (start [grey_frame])))) = 7"
  by (simp add: start_def loop_body_def read_frame_def show_frame_def handle_key_def emit_def
        Let_def copy_def round_double_one overlay_subtitle_def draw_backing_def write_pixels_def
        plain_cv_def slash_join_def beta_half alpha_def line_spacing_def margin_bottom_def
        grey_frame_def del: float_div_pos.simps)


text \<open>
  C7.  In every run of the playback loop, for every library, cue list and sequence of keys and
  positions, each frame handed to \<open>cv2.imwrite\<close> is the frame \<open>cap.read()\<close> returned last
  before the call, as decoded: the caption is drawn into copies, never into \<open>current_frame\<close>.
\<close>

theorem screenshot_is_raw_frame:
  "\<forall>i<length (trace (machine (main_loop cv join cues output_dir ticks (start frames)))).
     \<forall>path d.
       trace (machine (main_loop cv join cues output_dir ticks (start frames))) ! i = Imwrite path d
       \<longrightarrow> latest_decoded None
             (take i (trace (machine (main_loop cv join cues output_dir ticks (start frames)))))
           = Some d"
proof -
  have "player_ok (main_loop cv join cues output_dir ticks (start frames))"
    using player_ok_start by (rule player_ok_main_loop)
  then show ?thesis by (simp add: player_ok_def raw_screenshots_def)
qed


theorem screenshot_is_raw_frame_witness:
  "trace (machine (main_loop plain_cv slash_join [(Finite 0, Finite 5, [''Hi''])] ''screenshots''
            [\<lparr>pos_msec = Finite 1000, key_code = 115, timestamp = ''20240101_120000_123456''\<rparr>]
            (start [grey_frame]))) ! 5
     = Imwrite ''screenshots/screenshot_20240101_120000_123.png'' grey_frame \<and>
   latest_decoded None
     (take 5 (trace (machine (main_loop plain_cv slash_join [(Finite 0, Finite 5, [''Hi''])]
            ''screenshots''
            [\<lparr>pos_msec = Finite 1000, key_code = 115, timestamp = ''20240101_120000_123456''\<rparr>]
            (start [grey_frame])))))
     = Some grey_frame"
proof -
  let ?tr = "trace (machine (main_loop plain_cv slash_join [(Finite 0, Finite 5, [''Hi''])]
            ''screenshots''
            [\<lparr>pos_msec = Finite 1000, key_code = 115, timestamp = ''20240101_120000_123456''\<rparr>]
            (start [grey_frame])))"
  from plain_run_screenshot
  have w: "?tr ! 5 = Imwrite ''screenshots/screenshot_20240101_120000_123.png'' grey_frame"
    and l: "5 < length ?tr"
    by simp_all
  from screenshot_is_raw_frame
         [where cv = plain_cv and join = slash_join and cues = "[(Finite 0, Finite 5, [''Hi''])]"
            and output_dir = "''screenshots''"
            and ticks = "[\<lparr>pos_msec = Finite 1000, key_code = 115,
                           timestamp = ''20240101_120000_123456''\<rparr>]"
            and frames = "[grey_frame]"] l w
  have "latest_decoded None (take 5 ?tr) = Some grey_frame" by blast
  with w show ?thesis by blast
qed

end
